theory Spec2Isabelle
  imports Main "HOL-Library.Log_Nat"
begin

section \<open>Characters and strings\<close>

text \<open>
  Python strings are sequences of code points. This development models the texts whose
  code points lie in 0..255 (the Latin-1 block): a \<^typ>\<open>char\<close> is read as the code
  point of that number, and the character classes below are the classes of CPython 3.11
  (\<^verbatim>\<open>str.isspace\<close>, the \<^verbatim>\<open>re\<close> classes \<^verbatim>\<open>\s\<close>, \<^verbatim>\<open>\w\<close>, \<^verbatim>\<open>\d\<close>, \<^verbatim>\<open>str.lower\<close>,
  \<^verbatim>\<open>str.isupper\<close>) restricted to that range. Code points above 255 are outside the model.
\<close>

definition code :: "char \<Rightarrow> nat" where
  "code c = of_char c"

definition in_range :: "nat \<Rightarrow> nat \<Rightarrow> char \<Rightarrow> bool" where
  "in_range lo hi c \<longleftrightarrow> lo \<le> code c \<and> code c \<le> hi"

text \<open>\<^verbatim>\<open>str.isspace\<close>, \<^verbatim>\<open>\s\<close>, and what \<^verbatim>\<open>str.strip()\<close> and \<^verbatim>\<open>str.split()\<close> remove.\<close>

definition py_isspace :: "char \<Rightarrow> bool" where
  "py_isspace c \<longleftrightarrow>
     in_range 0x09 0x0D c \<or> in_range 0x1C 0x20 c \<or> code c = 0x85 \<or> code c = 0xA0"

text \<open>The class \<^verbatim>\<open>[A-Z]\<close>.\<close>

definition is_AZ :: "char \<Rightarrow> bool" where
  "is_AZ c \<longleftrightarrow> in_range 0x41 0x5A c"

text \<open>The class \<^verbatim>\<open>[.!?]\<close>, also the three characters \<^verbatim>\<open>limit_length\<close> looks for.\<close>

definition is_end_punct :: "char \<Rightarrow> bool" where
  "is_end_punct c \<longleftrightarrow> c = CHR ''.'' \<or> c = CHR ''!'' \<or> c = CHR ''?''"

text \<open>\<^verbatim>\<open>str.strip()\<close> with no argument.\<close>

definition py_lstrip :: "string \<Rightarrow> string" where
  "py_lstrip s = dropWhile py_isspace s"

definition py_rstrip :: "string \<Rightarrow> string" where
  "py_rstrip s = rev (dropWhile py_isspace (rev s))"

definition py_strip :: "string \<Rightarrow> string" where
  "py_strip s = py_rstrip (py_lstrip s)"

text \<open>
  The slice \<^verbatim>\<open>xs[:k]\<close> for a Python int \<open>k\<close>: a negative \<open>k\<close> counts from the end.
\<close>

definition py_slice_to :: "int \<Rightarrow> 'a list \<Rightarrow> 'a list" where
  "py_slice_to k xs =
     (if 0 \<le> k then take (nat k) xs else take (length xs - nat (- k)) xs)"

text \<open>\<^verbatim>\<open>s.rfind(c)\<close> for a one-character \<open>c\<close>: the highest index of \<open>c\<close>, or \<open>-1\<close>.\<close>

fun rfind :: "char \<Rightarrow> string \<Rightarrow> int" where
  "rfind c [] = -1"
| "rfind c (x # xs) =
     (let r = rfind c xs in
      if 0 \<le> r then r + 1 else if x = c then 0 else -1)"

datatype py_error = AttributeError | OverflowError | RequestException

section \<open>Double-precision arithmetic of the truncation threshold\<close>

text \<open>
  \<^verbatim>\<open>max_chars * 0.7\<close> converts the int to a double, multiplies by the double nearest to
  0.7, which is \<open>6305039478318694 / 2^53\<close>, and rounds the product to 53 significant
  bits, ties to even. \<open>round53 m\<close> rounds a positive integer to 53 significant bits and
  returns the rounded significand with the number of bits dropped.
\<close>

definition round53 :: "int \<Rightarrow> int \<times> nat" where
  "round53 m =
     (if bitlen m \<le> 53 then (m, 0)
      else let s = nat (bitlen m - 53);
               q = m div 2 ^ s;
               r = m mod 2 ^ s;
               h = 2 ^ (s - 1)
           in (if h < r \<or> (r = h \<and> odd q) then q + 1 else q, s))"

text \<open>
  The conversion of a non-negative int to a double, as an exact integer; CPython raises
  OverflowError when the rounded value does not fit a double.
\<close>

definition float_of_nonneg :: "int \<Rightarrow> py_error + int" where
  "float_of_nonneg n =
     (let (q, s) = round53 n in
      if 2 ^ 1024 \<le> q * 2 ^ s then Inl OverflowError else Inr (q * 2 ^ s))"

text \<open>
  \<open>mul07 n\<close> is the double \<^verbatim>\<open>n * 0.7\<close> scaled by \<open>2^53\<close>, an exact integer.
\<close>

definition mul07_nonneg :: "int \<Rightarrow> py_error + int" where
  "mul07_nonneg n =
     (if n = 0 then Inr 0
      else case float_of_nonneg n of
             Inl e \<Rightarrow> Inl e
           | Inr f \<Rightarrow> (let (q, s) = round53 (f * 6305039478318694) in Inr (q * 2 ^ s)))"

definition mul07 :: "int \<Rightarrow> py_error + int" where
  "mul07 n =
     (if 0 \<le> n then mul07_nonneg n
      else case mul07_nonneg (- n) of Inl e \<Rightarrow> Inl e | Inr v \<Rightarrow> Inr (- v))"

section \<open>Summary post-processing: \<^verbatim>\<open>limit_length\<close>\<close>

text \<open>
  \<^verbatim>\<open>limit_length(text, max_chars)\<close>. The comparison of the int
  \<^verbatim>\<open>last_sentence_end\<close> with the double is exact in Python; both sides are scaled by
  \<open>2^53\<close> here.
\<close>

definition last_sentence_end :: "string \<Rightarrow> int" where
  "last_sentence_end truncated =
     max (max (rfind (CHR ''.'') truncated) (rfind (CHR ''!'') truncated))
         (rfind (CHR ''?'') truncated)"

definition limit_length :: "string \<Rightarrow> int \<Rightarrow> py_error + string" where
  "limit_length text max_chars =
     (if int (length text) \<le> max_chars then Inr text
      else
        let truncated = py_slice_to max_chars text in
        case mul07 max_chars of
          Inl e \<Rightarrow> Inl e
        | Inr threshold \<Rightarrow>
            if threshold < last_sentence_end truncated * 2 ^ 53
            then Inr (py_slice_to (last_sentence_end truncated + 1) text)
            else Inr (truncated @ ''...''))"

text \<open>
  The reading of "the rightmost sentence-ending punctuation within the prefix": index
  \<open>i\<close> holds one of \<^verbatim>\<open>. ! ?\<close> and no later index of the prefix does.
\<close>

definition rightmost_end :: "string \<Rightarrow> nat \<Rightarrow> bool" where
  "rightmost_end s i \<longleftrightarrow>
     i < length s \<and> is_end_punct (s ! i) \<and>
     (\<forall>j < length s. i < j \<longrightarrow> \<not> is_end_punct (s ! j))"

section \<open>Regular-expression substitution\<close>

text \<open>
  \<^verbatim>\<open>re.sub(pattern, repl, text)\<close> scans \<open>text\<close> from the left: at each position it tries
  the pattern; on a match it emits the replacement and continues after the match, otherwise
  it emits the character and moves one position on. A pattern is given here by its
  matcher: from the character before the position (\<open>None\<close> at the start of the text) and
  the text from the position on, it returns the replacement and the length of the match,
  as the backtracking engine finds it. Every pattern of the program matches at least one
  character.
\<close>

type_synonym matcher = "char option \<Rightarrow> string \<Rightarrow> (string \<times> nat) option"

fun re_sub :: "matcher \<Rightarrow> char option \<Rightarrow> string \<Rightarrow> string" where
  "re_sub m prev [] = []"
| "re_sub m prev (c # cs) =
     (case m prev (c # cs) of
        None \<Rightarrow> c # re_sub m (Some c) cs
      | Some (out, len) \<Rightarrow>
          out @ re_sub m (Some ((c # cs) ! (len - 1))) (drop (len - 1) cs))"

definition starts_with :: "string \<Rightarrow> string \<Rightarrow> bool" where
  "starts_with d s \<longleftrightarrow> take (length d) s = d"

text \<open>The pattern \<^verbatim>\<open>\s+\<close>, replaced by one space.\<close>

definition m_spaces :: matcher where
  "m_spaces prev s =
     (case takeWhile py_isspace s of
        [] \<Rightarrow> None
      | w # ws \<Rightarrow> Some ('' '', length (w # ws)))"

text \<open>
  The lazy group followed by a delimiter, \<^verbatim>\<open>(.*?)d\<close>: the shortest run of characters
  other than newline that is followed by \<open>d\<close>. The result is the group and the length of
  group and delimiter.
\<close>

fun lazy_until :: "string \<Rightarrow> string \<Rightarrow> (string \<times> nat) option" where
  "lazy_until d [] = (if d = [] then Some ([], 0) else None)"
| "lazy_until d (c # cs) =
     (if starts_with d (c # cs) then Some ([], length d)
      else if c = CHR 0x0A then None
      else case lazy_until d cs of
             None \<Rightarrow> None
           | Some (g, n) \<Rightarrow> Some (c # g, Suc n))"

text \<open>
  The patterns \<^verbatim>\<open>\*\*(.*?)\*\*\<close>, \<^verbatim>\<open>\*(.*?)\*\<close> and the same with a backquote, each
  replaced by its group: \<open>m_delimited d\<close> for the delimiter \<open>d\<close>.
\<close>

definition m_delimited :: "string \<Rightarrow> matcher" where
  "m_delimited d prev s =
     (if d \<noteq> [] \<and> starts_with d s
      then case lazy_until d (drop (length d) s) of
             None \<Rightarrow> None
           | Some (g, n) \<Rightarrow> Some (g, length d + n)
      else None)"

text \<open>\<^verbatim>\<open>^\<close> under \<^verbatim>\<open>re.MULTILINE\<close>: the start of the text or just after a newline.\<close>

definition at_line_start :: "char option \<Rightarrow> bool" where
  "at_line_start prev \<longleftrightarrow> prev = None \<or> prev = Some (CHR 0x0A)"

text \<open>
  The bullet pattern. The class in the source file holds the five characters
  \<^verbatim>\<open>-\<close>, U+00E2, U+20AC, U+00A2 and \<^verbatim>\<open>*\<close>; U+20AC is outside the texts modelled here.
  The pattern is \<^verbatim>\<open>^[...]\s+\<close>, replaced by nothing.
\<close>

definition is_bullet :: "char \<Rightarrow> bool" where
  "is_bullet c \<longleftrightarrow> c = CHR ''-'' \<or> c = CHR 0xE2 \<or> c = CHR 0xA2 \<or> c = CHR ''*''"

definition m_bullet :: matcher where
  "m_bullet prev s =
     (case s of
        [] \<Rightarrow> None
      | c # cs \<Rightarrow>
          if at_line_start prev \<and> is_bullet c \<and> takeWhile py_isspace cs \<noteq> []
          then Some ([], Suc (length (takeWhile py_isspace cs)))
          else None)"

text \<open>The class \<^verbatim>\<open>\d\<close> and the pattern \<^verbatim>\<open>^\d+\.\s+\<close>, replaced by nothing.\<close>

definition is_digit :: "char \<Rightarrow> bool" where
  "is_digit c \<longleftrightarrow> in_range 0x30 0x39 c"

definition m_numbered :: matcher where
  "m_numbered prev s =
     (let ds = takeWhile is_digit s; r = dropWhile is_digit s in
      case r of
        [] \<Rightarrow> None
      | c # cs \<Rightarrow>
          if at_line_start prev \<and> ds \<noteq> [] \<and> c = CHR ''.'' \<and> takeWhile py_isspace cs \<noteq> []
          then Some ([], length ds + 1 + length (takeWhile py_isspace cs))
          else None)"

section \<open>Sentence segmentation: \<^verbatim>\<open>split_sentences\<close>\<close>

definition starts_AZ :: "string \<Rightarrow> bool" where
  "starts_AZ s = (case s of [] \<Rightarrow> False | c # _ \<Rightarrow> is_AZ c)"

fun cons_first :: "char \<Rightarrow> (string \<times> string) list \<Rightarrow> (string \<times> string) list" where
  "cons_first c [] = [([c], [])]"
| "cons_first c ((p, w) # rest) = (c # p, w) # rest"

text \<open>
  \<^verbatim>\<open>re.split(r'(?<=[.!?])\s+(?=[A-Z])', text)\<close>. The pattern matches at a position
  when the character before it is one of \<^verbatim>\<open>. ! ?\<close> (the flag \<open>b\<close>), a whitespace
  character stands at it, and the first character after the whole whitespace run is in
  \<^verbatim>\<open>[A-Z]\<close>; the match is the whitespace run. \<open>sent_scan\<close> returns each piece together
  with the whitespace of the match that ended it, empty for the last piece.
\<close>

function sent_scan :: "bool \<Rightarrow> string \<Rightarrow> (string \<times> string) list" where
  "sent_scan b [] = [([], [])]"
| "sent_scan b (c # cs) =
     (if b \<and> py_isspace c \<and> starts_AZ (dropWhile py_isspace cs)
      then ([], c # takeWhile py_isspace cs) # sent_scan False (dropWhile py_isspace cs)
      else cons_first c (sent_scan (is_end_punct c) cs))"
  by pat_completeness auto
termination
  by (relation "measure (\<lambda>(b, s). length s)")
     (auto simp: length_dropWhile_le less_Suc_eq_le)

definition re_split_sent :: "string \<Rightarrow> string list" where
  "re_split_sent text = map fst (sent_scan False text)"

definition split_sentences :: "string \<Rightarrow> string list" where
  "split_sentences text =
     filter (\<lambda>sentence. sentence \<noteq> [] \<and> 5 < length sentence)
            (map py_strip (re_split_sent text))"



section \<open>Summary post-processing: \<^verbatim>\<open>postprocess_summary\<close>\<close>

text \<open>\<^verbatim>\<open>sep.join(xs)\<close>.\<close>

fun py_join :: "string \<Rightarrow> string list \<Rightarrow> string" where
  "py_join sep [] = []"
| "py_join sep [x] = x"
| "py_join sep (x # y # ys) = x @ sep @ py_join sep (y # ys)"

text \<open>
  \<^verbatim>\<open>postprocess_summary(summary, max_sentences)\<close>. The argument is optional here:
  \<^verbatim>\<open>not summary\<close> holds for \<^verbatim>\<open>None\<close> and for the empty string. No call inside the
  \<^verbatim>\<open>try\<close> block raises on a string, so the \<^verbatim>\<open>except\<close> branch is never taken.
\<close>

definition postprocess_summary :: "string option \<Rightarrow> int \<Rightarrow> string" where
  "postprocess_summary summary max_sentences =
     (case summary of
        None \<Rightarrow> []
      | Some text \<Rightarrow>
          if text = [] then []
          else
            let s1 = py_strip (re_sub m_spaces None text);
                s2 = re_sub (m_delimited ''**'') None s1;
                s3 = re_sub (m_delimited ''*'') None s2;
                s4 = re_sub (m_delimited ''`'') None s3;
                s5 = re_sub m_bullet None s4;
                s6 = re_sub m_numbered None s5;
                sentences = split_sentences s6;
                sentences' = (if max_sentences < int (length sentences)
                              then py_slice_to max_sentences sentences else sentences);
                processed_summary = py_strip (py_join '' '' sentences')
            in if processed_summary \<noteq> [] \<and> last processed_summary \<noteq> CHR ''.''
               then processed_summary @ ''.''
               else processed_summary)"

section \<open>Text normalisation: \<^verbatim>\<open>preprocess_text\<close>\<close>







text \<open>\<^verbatim>\<open>str.isupper\<close> of one character and \<^verbatim>\<open>str.lower\<close>.\<close>

definition py_isupper :: "char \<Rightarrow> bool" where
  "py_isupper c \<longleftrightarrow> in_range 0x41 0x5A c \<or> in_range 0xC0 0xD6 c \<or> in_range 0xD8 0xDE c"

definition lower_char :: "char \<Rightarrow> char" where
  "lower_char c = (if py_isupper c then char_of (code c + 32) else c)"

definition py_lower :: "string \<Rightarrow> string" where
  "py_lower s = map lower_char s"







section \<open>The parse tree\<close>

text \<open>
  The scraper works on the tree that \<^verbatim>\<open>BeautifulSoup(response.content, 'html.parser')\<close>
  returns. A node is a string or an element with its name, its \<^verbatim>\<open>class\<close> attribute (the
  list of class names, \<open>None\<close> when the attribute is absent), its other attributes and
  its children. A node is identified by its path, the child indices from the root.
\<close>

datatype node =
    Text string
  | Element string "string list option" "(string \<times> string) list" "node list"

type_synonym path = "nat list"

type_synonym tag = "path \<times> node"

text \<open>
  \<^verbatim>\<open>script.extract()\<close> detaches a node from its parent for the rest of the call. The
  paths of the detached nodes are the state \<open>R\<close>; \<open>desc R p x\<close> lists the descendants of
  the node \<open>x\<close> at path \<open>p\<close> in document order, without the detached nodes and what is
  below them.
\<close>

fun desc :: "path list \<Rightarrow> path \<Rightarrow> node \<Rightarrow> tag list"
  and desc_list :: "path list \<Rightarrow> path \<Rightarrow> nat \<Rightarrow> node list \<Rightarrow> tag list" where
  "desc R p (Text s) = []"
| "desc R p (Element n c a ch) = desc_list R p 0 ch"
| "desc_list R p i [] = []"
| "desc_list R p i (x # xs) =
     (if p @ [i] \<in> set R then [] else (p @ [i], x) # desc R (p @ [i]) x) @
     desc_list R p (Suc i) xs"

definition is_tag :: "string \<Rightarrow> node \<Rightarrow> bool" where
  "is_tag n x = (case x of Element m _ _ _ \<Rightarrow> m = n | Text _ \<Rightarrow> False)"

text \<open>\<^verbatim>\<open>needle in hay\<close> for strings.\<close>

fun py_in :: "string \<Rightarrow> string \<Rightarrow> bool" where
  "py_in n [] = (n = [])"
| "py_in n (c # cs) = (starts_with n (c # cs) \<or> py_in n cs)"

text \<open>
  The filter \<^verbatim>\<open>class_='quote'\<close>: a class of the element is the string, or the whole
  attribute is. The filter \<^verbatim>\<open>class_=lambda x: x and 'post' in x.lower()\<close>: the function
  holds of a class of the element, or of the whole attribute; an element without the
  attribute passes \<^verbatim>\<open>None\<close> to it and does not match.
\<close>

definition class_is :: "string \<Rightarrow> node \<Rightarrow> bool" where
  "class_is v x =
     (case x of
        Element _ (Some cs) _ _ \<Rightarrow> v \<in> set cs \<or> py_join '' '' cs = v
      | _ \<Rightarrow> False)"

definition class_has :: "string \<Rightarrow> node \<Rightarrow> bool" where
  "class_has needle x =
     (case x of
        Element _ (Some cs) _ _ \<Rightarrow>
          list_ex (\<lambda>c. py_in needle (py_lower c)) cs \<or>
          py_in needle (py_lower (py_join '' '' cs))
      | _ \<Rightarrow> False)"

text \<open>\<^verbatim>\<open>tag.find_all(...)\<close>, \<^verbatim>\<open>tag.find(...)\<close> and \<^verbatim>\<open>tag.get_text()\<close>.\<close>

definition find_all :: "path list \<Rightarrow> (node \<Rightarrow> bool) \<Rightarrow> tag \<Rightarrow> tag list" where
  "find_all R P t = filter (\<lambda>(q, x). P x) (desc R (fst t) (snd t))"

definition find :: "path list \<Rightarrow> (node \<Rightarrow> bool) \<Rightarrow> tag \<Rightarrow> tag option" where
  "find R P t = (case find_all R P t of [] \<Rightarrow> None | e # _ \<Rightarrow> Some e)"

definition get_text :: "path list \<Rightarrow> tag \<Rightarrow> string" where
  "get_text R t =
     concat (map (\<lambda>(q, x). case x of Text s \<Rightarrow> s | _ \<Rightarrow> []) (desc R (fst t) (snd t)))"

text \<open>\<^verbatim>\<open>tag.get(key, default)\<close> for an attribute other than \<^verbatim>\<open>class\<close>.\<close>

definition get_attr :: "string \<Rightarrow> string \<Rightarrow> tag \<Rightarrow> string" where
  "get_attr key dflt t =
     (case snd t of
        Element _ _ attrs _ \<Rightarrow> (case map_of attrs key of Some v \<Rightarrow> v | None \<Rightarrow> dflt)
      | Text _ \<Rightarrow> dflt)"

text \<open>
  \<^verbatim>\<open>tag.find_next_sibling(name)\<close>: the first later child of the same parent with that
  name, looked up among all the nodes of the document.
\<close>

definition find_next_sibling :: "tag list \<Rightarrow> string \<Rightarrow> tag \<Rightarrow> tag option" where
  "find_next_sibling every n t =
     (case filter (\<lambda>(q, x). fst t \<noteq> [] \<and> q \<noteq> [] \<and> butlast q = butlast (fst t) \<and>
                              last (fst t) < last q \<and> is_tag n x) every of
        [] \<Rightarrow> None
      | e # _ \<Rightarrow> Some e)"

section \<open>The scraper\<close>

record article =
  title :: string
  author :: string
  content :: string
  source_url :: string

text \<open>
  The outcome of \<^verbatim>\<open>session.get(url)\<close>, \<^verbatim>\<open>raise_for_status()\<close> and the parse is given by
  the environment \<open>web\<close>: an exception, or the root of the parse tree.
\<close>

type_synonym web = "string \<Rightarrow> py_error + node"

text \<open>
  The loop of \<^verbatim>\<open>_scrape_quotes_to_scrape\<close>. \<^verbatim>\<open>quote.find(...)\<close> returns \<^verbatim>\<open>None\<close>
  when the element is missing, and \<^verbatim>\<open>None.get_text()\<close> raises AttributeError, which
  leaves the function.
\<close>

fun quotes_loop :: "string \<Rightarrow> tag list \<Rightarrow> py_error + article list" where
  "quotes_loop url [] = Inr []"
| "quotes_loop url (quote # quotes) =
     (case find [] (\<lambda>x. is_tag ''span'' x \<and> class_is ''text'' x) quote of
        None \<Rightarrow> Inl AttributeError
      | Some t \<Rightarrow>
          (case find [] (\<lambda>x. is_tag ''small'' x \<and> class_is ''author'' x) quote of
             None \<Rightarrow> Inl AttributeError
           | Some a \<Rightarrow>
               let text = get_text [] t;
                   author = get_text [] a;
                   tags = map (get_text [])
                            (find_all [] (\<lambda>x. is_tag ''a'' x \<and> class_is ''tag'' x) quote)
               in case quotes_loop url quotes of
                    Inl e \<Rightarrow> Inl e
                  | Inr articles \<Rightarrow>
                      Inr (\<lparr>title = ''Quote by '' @ author,
                            author = author,
                            content = text @ [CHR 0x0A, CHR 0x0A] @ ''Tags: '' @ py_join '', '' tags,
                            source_url = url\<rparr> # articles)))"

definition scrape_quotes_to_scrape :: "web \<Rightarrow> string \<Rightarrow> int \<Rightarrow> py_error + article list" where
  "scrape_quotes_to_scrape web url limit =
     (case web url of
        Inl e \<Rightarrow> Inl e
      | Inr soup \<Rightarrow>
          quotes_loop url
            (py_slice_to limit
               (find_all [] (\<lambda>x. is_tag ''div'' x \<and> class_is ''quote'' x) ([], soup))))"

text \<open>The loop of \<^verbatim>\<open>_scrape_hacker_news\<close>; \<open>every\<close> lists all nodes of the document.\<close>

fun hacker_news_loop :: "string \<Rightarrow> tag list \<Rightarrow> tag list \<Rightarrow> article list" where
  "hacker_news_loop url every [] = []"
| "hacker_news_loop url every (row # rows) =
     (case find [] (\<lambda>x. is_tag ''span'' x \<and> class_is ''titleline'' x) row of
        None \<Rightarrow> hacker_news_loop url every rows
      | Some title_element \<Rightarrow>
          (case find [] (is_tag ''a'') title_element of
             None \<Rightarrow> hacker_news_loop url every rows
           | Some title_link \<Rightarrow>
               let title = py_strip (get_text [] title_link);
                   link = get_attr ''href'' [] title_link;
                   author =
                     (case find_next_sibling every ''tr'' row of
                        None \<Rightarrow> ''Unknown''
                      | Some next_row \<Rightarrow>
                          (case find [] (\<lambda>x. is_tag ''a'' x \<and> class_is ''hnuser'' x) next_row of
                             None \<Rightarrow> ''Unknown''
                           | Some author_element \<Rightarrow> get_text [] author_element))
               in \<lparr>title = title,
                    author = author,
                    content = ''Title: '' @ title @ [CHR 0x0A] @ ''Link: '' @ link,
                    source_url = url\<rparr> # hacker_news_loop url every rows))"

definition scrape_hacker_news :: "web \<Rightarrow> string \<Rightarrow> int \<Rightarrow> py_error + article list" where
  "scrape_hacker_news web url limit =
     (case web url of
        Inl e \<Rightarrow> Inl e
      | Inr soup \<Rightarrow>
          Inr (hacker_news_loop url (desc [] [] soup)
                 (py_slice_to limit
                    (find_all [] (\<lambda>x. is_tag ''tr'' x \<and> class_is ''athing'' x) ([], soup)))))"

text \<open>\<^verbatim>\<open>str(n)\<close> for a natural number.\<close>

function str_nat :: "nat \<Rightarrow> string" where
  "str_nat n =
     (if n < 10 then [char_of (48 + n)]
      else str_nat (n div 10) @ [char_of (48 + n mod 10)])"
  by pat_completeness auto
termination
  by (relation "measure id") auto

declare str_nat.simps [simp del]

text \<open>
  The generic strategy. The candidates are the concatenation of three searches, cut to
  \<open>limit\<close>. The loop keeps the index \<open>i\<close> of \<^verbatim>\<open>enumerate\<close> and the detached nodes \<open>R\<close>:
  the title is looked up first, then every \<^verbatim>\<open>script\<close> and \<^verbatim>\<open>style\<close> below the candidate
  is detached, then the text is taken.
\<close>

definition potential_articles :: "node \<Rightarrow> tag list" where
  "potential_articles soup =
     find_all [] (is_tag ''article'') ([], soup) @
     find_all [] (\<lambda>x. is_tag ''div'' x \<and> class_has ''post'' x) ([], soup) @
     find_all [] (\<lambda>x. is_tag ''div'' x \<and> class_has ''article'' x) ([], soup)"

definition title_element :: "path list \<Rightarrow> tag \<Rightarrow> tag option" where
  "title_element R article =
     (case find R (is_tag ''h1'') article of
        Some e \<Rightarrow> Some e
      | None \<Rightarrow>
          (case find R (is_tag ''h2'') article of
             Some e \<Rightarrow> Some e
           | None \<Rightarrow>
               (case find R (is_tag ''h3'') article of
                  Some e \<Rightarrow> Some e
                | None \<Rightarrow> find R (is_tag ''title'') article)))"

definition extract_scripts :: "path list \<Rightarrow> tag \<Rightarrow> path list" where
  "extract_scripts R article =
     R @ map fst (find_all R (\<lambda>x. is_tag ''script'' x \<or> is_tag ''style'' x) article)"

fun generic_loop :: "string \<Rightarrow> nat \<Rightarrow> path list \<Rightarrow> tag list \<Rightarrow> article list" where
  "generic_loop url i R [] = []"
| "generic_loop url i R (article # rest) =
     (let title = (case title_element R article of
                     Some e \<Rightarrow> py_strip (get_text R e)
                   | None \<Rightarrow> ''Article '' @ str_nat (i + 1));
          R' = extract_scripts R article;
          content = take 2000 (py_strip (get_text R' article))
      in \<lparr>title = title, author = ''Unknown'', content = content, source_url = url\<rparr> #
         generic_loop url (Suc i) R' rest)"

definition scrape_generic :: "web \<Rightarrow> string \<Rightarrow> int \<Rightarrow> article list" where
  "scrape_generic web url limit =
     (case web url of
        Inl e \<Rightarrow> []
      | Inr soup \<Rightarrow> generic_loop url 0 [] (py_slice_to limit (potential_articles soup)))"

text \<open>\<^verbatim>\<open>WebScraper.scrape_articles\<close>: the dispatch, with every exception caught.\<close>

definition scrape_articles :: "web \<Rightarrow> string \<Rightarrow> int \<Rightarrow> article list" where
  "scrape_articles web url limit =
     (if py_in ''quotes.toscrape.com'' url
      then (case scrape_quotes_to_scrape web url limit of Inl e \<Rightarrow> [] | Inr r \<Rightarrow> r)
      else if py_in ''news.ycombinator.com'' url
      then (case scrape_hacker_news web url limit of Inl e \<Rightarrow> [] | Inr r \<Rightarrow> r)
      else scrape_generic web url limit)"


section \<open>Example documents\<close>

text \<open>
  Two quote containers: the first has an author and no quote text, the second is
  complete. \<open>quotes_page_good\<close> holds the second container alone.
\<close>

definition quote_without_text :: node where
  "quote_without_text =
     Element ''div'' (Some [''quote'']) []
       [Element ''small'' (Some [''author'']) [] [Text ''Jane Austen'']]"

definition quote_complete :: node where
  "quote_complete =
     Element ''div'' (Some [''quote'']) []
       [Element ''span'' (Some [''text'']) [] [Text ''To be or not to be.''],
        Element ''small'' (Some [''author'']) [] [Text ''William Shakespeare''],
        Element ''a'' (Some [''tag'']) [(''href'', ''/tag/life/'')] [Text ''life'']]"

definition quotes_page :: node where
  "quotes_page = Element ''[document]'' None [] [quote_without_text, quote_complete]"

definition quotes_page_good :: node where
  "quotes_page_good = Element ''[document]'' None [] [quote_complete]"

text \<open>A page with two \<^verbatim>\<open>article\<close> elements.\<close>

definition two_articles_page :: node where
  "two_articles_page =
     Element ''[document]'' None []
       [Element ''article'' None [] [Element ''h1'' None [] [Text ''First''], Text ''One.''],
        Element ''article'' None [] [Element ''h1'' None [] [Text ''Second''], Text ''Two.'']]"

text \<open>
  A page with two containers: a \<^verbatim>\<open>div\<close> of class \<^verbatim>\<open>blog-post article-body\<close> and a
  \<^verbatim>\<open>div\<close> of class \<^verbatim>\<open>news-article\<close>.
\<close>

definition post_article_div :: node where
  "post_article_div =
     Element ''div'' (Some [''blog-post'', ''article-body'']) []
       [Element ''h2'' None [] [Text ''Release notes''], Text ''Version two is out.'']"

definition news_div :: node where
  "news_div =
     Element ''div'' (Some [''news-article'']) []
       [Element ''h2'' None [] [Text ''Other news''], Text ''Nothing happened.'']"

definition blog_page :: node where
  "blog_page = Element ''[document]'' None [] [post_article_div, news_div]"



section \<open>The summarisation gateway\<close>

text \<open>
  The client holds the delay and the time of the last request. Its environment gives the
  readings of \<^verbatim>\<open>time.time()\<close>, numbered in the order they are taken, and the outcome of
  \<^verbatim>\<open>model.generate_content(prompt)\<close> after the events so far: an exception with its
  message (also when \<^verbatim>\<open>response.text\<close> raises), a response that is false, or a response
  with its text. The world records how many readings were taken and the calls of
  \<^verbatim>\<open>time.sleep\<close> and of the service. Times are rationals: the float subtraction is taken
  as exact.
\<close>

datatype gen_result = Raises string | NoResponse | Reply string

datatype event = Slept rat | Generated string

record client =
  rate_limit_delay :: rat
  last_request_time :: rat

record world =
  reads :: nat
  trace :: "event list"

record env =
  clock :: "nat \<Rightarrow> rat"
  service :: "event list \<Rightarrow> string \<Rightarrow> gen_result"

definition apply_rate_limit :: "env \<Rightarrow> client \<times> world \<Rightarrow> client \<times> world" where
  "apply_rate_limit e cw =
     (let c = fst cw; w = snd cw;
          current_time = clock e (reads w);
          w1 = w\<lparr>reads := Suc (reads w)\<rparr>;
          time_since_last_request = current_time - last_request_time c;
          w2 = (if time_since_last_request < rate_limit_delay c
                then w1\<lparr>trace := trace w1 @
                          [Slept (rate_limit_delay c - time_since_last_request)]\<rparr>
                else w1)
      in (c\<lparr>last_request_time := clock e (reads w2)\<rparr>, w2\<lparr>reads := Suc (reads w2)\<rparr>))"

text \<open>\<^verbatim>\<open>str(n)\<close> for an int, and the two prompt templates.\<close>

definition str_int :: "int \<Rightarrow> string" where
  "str_int n = (if n < 0 then CHR ''-'' # str_nat (nat (- n)) else str_nat (nat n))"

definition indent :: string where
  "indent = replicate 12 (CHR '' '')"

definition text_prompt :: "string \<Rightarrow> int \<Rightarrow> string" where
  "text_prompt text max_sentences =
     [CHR 0x0A] @ indent @ ''Please provide a concise summary of the following text in '' @
     str_int max_sentences @ '' sentences or less. '' @
     [CHR 0x0A] @ indent @ ''Focus on the main points and key information:'' @
     [CHR 0x0A, CHR 0x0A] @ indent @ ''Text to summarize:'' @
     [CHR 0x0A] @ indent @ text @
     [CHR 0x0A, CHR 0x0A] @ indent @ ''Summary:'' @
     [CHR 0x0A] @ indent"

definition article_prompt :: "string \<Rightarrow> string \<Rightarrow> string option \<Rightarrow> string" where
  "article_prompt a_title a_content a_author =
     (let author_text = (case a_author of
                           None \<Rightarrow> []
                         | Some a \<Rightarrow> if a = [] then [] else '' by '' @ a)
      in [CHR 0x0A] @ indent @ ''Please provide a concise 3-sentence summary of this article:'' @
         [CHR 0x0A, CHR 0x0A] @ indent @ ''Title: '' @ a_title @ author_text @
         [CHR 0x0A] @ indent @ ''Content: '' @ a_content @
         [CHR 0x0A, CHR 0x0A] @ indent @
         ''Focus on the main message, key points, and important details. '' @
         ''Make the summary informative and well-structured.'' @
         [CHR 0x0A, CHR 0x0A] @ indent @ ''Summary:'' @
         [CHR 0x0A] @ indent)"

text \<open>
  The body of the \<^verbatim>\<open>try\<close> block: the rate limiter, then the call. \<open>Inl\<close> is an exception
  raised inside the block, with its message; \<open>empty_answer\<close> is the string returned for
  an empty response.
\<close>

definition call_service ::
  "env \<Rightarrow> string \<Rightarrow> string \<Rightarrow> client \<times> world \<Rightarrow> (string + string) \<times> client \<times> world" where
  "call_service e prompt empty_answer cw =
     (let cw1 = apply_rate_limit e cw;
          w2 = (snd cw1)\<lparr>trace := trace (snd cw1) @ [Generated prompt]\<rparr>
      in (case service e (trace (snd cw1)) prompt of
            Raises msg \<Rightarrow> Inl msg
          | NoResponse \<Rightarrow> Inr empty_answer
          | Reply txt \<Rightarrow> if txt \<noteq> [] then Inr (py_strip txt) else Inr empty_answer,
          fst cw1, w2))"

text \<open>
  \<^verbatim>\<open>GeminiClient.summarize_text\<close> and \<^verbatim>\<open>GeminiClient.summarize_article\<close>. The test
  \<^verbatim>\<open>not text or len(text.strip()) == 0\<close> comes before the \<^verbatim>\<open>try\<close> block; the handler
  turns an exception of the block into a string.
\<close>

definition summarize_text ::
  "env \<Rightarrow> string option \<Rightarrow> int \<Rightarrow> client \<times> world \<Rightarrow> string \<times> client \<times> world" where
  "summarize_text e text max_sentences cw =
     (case text of
        None \<Rightarrow> (''No content to summarize.'', cw)
      | Some t \<Rightarrow>
          if t = [] \<or> length (py_strip t) = 0 then (''No content to summarize.'', cw)
          else
            (case call_service e (text_prompt t max_sentences) ''Unable to generate summary.'' cw of
               (Inl msg, cw') \<Rightarrow> (''Error generating summary: '' @ msg, cw')
             | (Inr summary, cw') \<Rightarrow> (summary, cw')))"

definition summarize_article ::
  "env \<Rightarrow> string \<Rightarrow> string option \<Rightarrow> string option \<Rightarrow> client \<times> world \<Rightarrow>
   string \<times> client \<times> world" where
  "summarize_article e a_title a_content a_author cw =
     (case a_content of
        None \<Rightarrow> (''No content to summarize.'', cw)
      | Some t \<Rightarrow>
          if t = [] \<or> length (py_strip t) = 0 then (''No content to summarize.'', cw)
          else
            (case call_service e (article_prompt a_title t a_author)
                    ''Unable to generate article summary.'' cw of
               (Inl msg, cw') \<Rightarrow> (''Error generating article summary: '' @ msg, cw')
             | (Inr summary, cw') \<Rightarrow> (summary, cw')))"

text \<open>An environment for examples: the clock shows 5, the service answers.\<close>

definition demo_env :: env where
  "demo_env = \<lparr>clock = (\<lambda>n. 5), service = (\<lambda>tr prompt. Reply '' A summary. '')\<rparr>"

definition new_client :: client where
  "new_client = \<lparr>rate_limit_delay = 1, last_request_time = 0\<rparr>"

definition new_world :: world where
  "new_world = \<lparr>reads = 0, trace = []\<rparr>"

section \<open>Verified properties\<close>

subsection \<open>Truncation\<close>

lemma rfind_bounds: "- 1 \<le> rfind c s \<and> rfind c s < int (length s)"
  by (induction s) (auto simp: Let_def)

lemma rfind_char: "0 \<le> rfind c s \<Longrightarrow> s ! nat (rfind c s) = c"
  by (induction s) (auto simp: Let_def nat_add_distrib split: if_splits)

lemma rfind_max: "i < length s \<Longrightarrow> s ! i = c \<Longrightarrow> int i \<le> rfind c s"
proof (induction s arbitrary: i)
  case Nil then show ?case by simp
next
  case (Cons x xs)
  show ?case
  proof (cases i)
    case 0
    with Cons.prems show ?thesis using rfind_bounds[of c xs] by (auto simp: Let_def)
  next
    case (Suc j)
    with Cons.prems Cons.IH[of j] show ?thesis by (auto simp: Let_def)
  qed
qed

lemma last_sentence_end_bounds:
  "- 1 \<le> last_sentence_end s \<and> last_sentence_end s < int (length s)"
  using rfind_bounds[of "CHR ''.''" s] rfind_bounds[of "CHR ''!''" s]
        rfind_bounds[of "CHR ''?''" s]
  by (auto simp: last_sentence_end_def max_def)

lemma last_sentence_end_upper:
  "i < length s \<Longrightarrow> is_end_punct (s ! i) \<Longrightarrow> int i \<le> last_sentence_end s"
  using rfind_max[of i s "CHR ''.''"] rfind_max[of i s "CHR ''!''"]
        rfind_max[of i s "CHR ''?''"]
  by (auto simp: last_sentence_end_def is_end_punct_def)

lemma last_sentence_end_punct:
  "0 \<le> last_sentence_end s \<Longrightarrow> is_end_punct (s ! nat (last_sentence_end s))"
  using rfind_char[of "CHR ''.''" s] rfind_char[of "CHR ''!''" s]
        rfind_char[of "CHR ''?''" s]
  by (auto simp: last_sentence_end_def is_end_punct_def max_def split: if_splits)

lemma rightmost_end_iff:
  "rightmost_end s i \<longleftrightarrow> int i = last_sentence_end s"
proof
  assume r: "rightmost_end s i"
  then have le: "int i \<le> last_sentence_end s"
    by (simp add: rightmost_end_def last_sentence_end_upper)
  then have nn: "0 \<le> last_sentence_end s" by simp
  let ?j = "nat (last_sentence_end s)"
  have "?j < length s" using last_sentence_end_bounds[of s] nn by simp
  moreover have "is_end_punct (s ! ?j)" using nn by (rule last_sentence_end_punct)
  ultimately have "\<not> i < ?j" using r by (auto simp: rightmost_end_def)
  with le nn show "int i = last_sentence_end s" by simp
next
  assume e: "int i = last_sentence_end s"
  then have nn: "0 \<le> last_sentence_end s" by simp
  have "i < length s" using last_sentence_end_bounds[of s] e by simp
  moreover have "is_end_punct (s ! i)"
    using last_sentence_end_punct[OF nn] e by (metis nat_int)
  moreover have "\<not> is_end_punct (s ! j)" if "j < length s" "i < j" for j
    using last_sentence_end_upper[of j s] that e by auto
  ultimately show "rightmost_end s i" by (simp add: rightmost_end_def)
qed


lemma round53_bound:
  assumes "0 < m" "round53 m = (q, s)"
  shows "0 < q * 2 ^ s \<and> q * 2 ^ s \<le> 2 * m"
proof (cases "bitlen m \<le> 53")
  case True
  with assms show ?thesis by (auto simp: round53_def)
next
  case False
  define t where "t = nat (bitlen m - 53)"
  define q0 where "q0 = m div 2 ^ t"
  have bl: "2 ^ nat (bitlen m - 1) \<le> m"
    using bitlen_bounds[OF assms(1)] by simp
  have "t \<le> nat (bitlen m - 1)" using False by (simp add: t_def)
  then have "(2::int) ^ t \<le> 2 ^ nat (bitlen m - 1)"
    by (rule power_increasing) simp
  with bl have pw: "2 ^ t \<le> m" by linarith
  have q0pos: "0 < q0"
    unfolding q0_def using pw by (simp add: pos_imp_zdiv_pos_iff)
  have q0le: "q0 * 2 ^ t \<le> m"
  proof -
    have "q0 * 2 ^ t = m - m mod 2 ^ t"
      by (simp add: q0_def minus_mod_eq_div_mult)
    moreover have "0 \<le> m mod 2 ^ t" by simp
    ultimately show ?thesis by linarith
  qed
  from assms(2) False have s: "s = t" and q: "q = q0 \<or> q = q0 + 1"
    by (auto simp: round53_def Let_def t_def q0_def split: if_splits)
  have A: "(q0 + 1) * 2 ^ t = q0 * 2 ^ t + 2 ^ t" by (simp add: algebra_simps)
  have P: "0 < q0 * 2 ^ t" using q0pos by simp
  have Y: "(0::int) < 2 ^ t" by simp
  from q show ?thesis
  proof
    assume "q = q0"
    then show ?thesis using s P q0le assms(1) by simp
  next
    assume "q = q0 + 1"
    then have "q * 2 ^ s = q0 * 2 ^ t + 2 ^ t" using A s by simp
    then show ?thesis using P Y q0le pw by linarith
  qed
qed

lemma float_of_nonneg_ok:
  assumes "0 < n" "n < 2 ^ 1023"
  shows "\<exists>f. float_of_nonneg n = Inr f \<and> 0 < f"
proof -
  obtain q s where r: "round53 n = (q, s)" by (cases "round53 n")
  from round53_bound[OF assms(1) r] assms(2)
  have "0 < q * 2 ^ s" "q * 2 ^ s < 2 ^ 1024" by auto
  with r show ?thesis by (simp add: float_of_nonneg_def)
qed

lemma mul07_ok:
  assumes "0 \<le> n" "n < 2 ^ 1023"
  shows "\<exists>thr. mul07 n = Inr thr \<and> 0 \<le> thr"
proof (cases "n = 0")
  case True
  then show ?thesis by (simp add: mul07_def mul07_nonneg_def)
next
  case False
  with assms have "0 < n" by simp
  from float_of_nonneg_ok[OF this assms(2)] obtain f
    where f: "float_of_nonneg n = Inr f" "0 < f" by blast
  obtain q s where r: "round53 (f * 6305039478318694) = (q, s)"
    by (cases "round53 (f * 6305039478318694)")
  from f(2) have "0 < f * 6305039478318694" by simp
  from round53_bound[OF this r] have "0 < q * 2 ^ s" by simp
  with f r False assms(1) show ?thesis
    by (simp add: mul07_def mul07_nonneg_def)
qed


lemma round53_err:
  assumes "0 < m" "round53 m = (q, s)"
  shows "2 ^ 53 * \<bar>q * 2 ^ s - m\<bar> \<le> m"
proof (cases "bitlen m \<le> 53")
  case True
  with assms show ?thesis by (auto simp: round53_def)
next
  case False
  define t where "t = nat (bitlen m - 53)"
  define q0 where "q0 = m div 2 ^ t"
  define r where "r = m mod 2 ^ t"
  define h :: int where "h = 2 ^ (t - 1)"
  have tpos: "0 < t" using False by (simp add: t_def)
  have hh: "(2::int) ^ t = 2 * h"
    using tpos by (cases t) (simp_all add: h_def)
  have bl: "2 ^ nat (bitlen m - 1) \<le> m"
    using bitlen_bounds[OF assms(1)] by simp
  have "nat (bitlen m - 1) = t + 52" using False by (simp add: t_def)
  with bl have big: "2 ^ t * 2 ^ 52 \<le> m" by (simp add: power_add)
  have m: "m = q0 * (2 * h) + r"
    unfolding q0_def r_def hh[symmetric] by (rule div_mult_mod_eq[symmetric])
  have r: "0 \<le> r" "r < 2 * h"
    unfolding r_def hh[symmetric] by simp_all
  from assms(2) False have s: "s = t"
    and q: "q = (if h < r \<or> (r = h \<and> odd q0) then q0 + 1 else q0)"
    by (auto simp: round53_def Let_def t_def q0_def r_def h_def split: if_splits)
  have v: "q * 2 ^ s = q * (2 * h)" using s hh by simp
  have "\<bar>q * (2 * h) - m\<bar> \<le> h"
  proof (cases "h < r \<or> (r = h \<and> odd q0)")
    case True
    with q have "q = q0 + 1" by (simp only: if_True)
    then have "q * (2 * h) - m = 2 * h - r" using m by (simp add: algebra_simps)
    moreover from True have "h \<le> r" by auto
    ultimately show ?thesis using r by linarith
  next
    case False
    with q have "q = q0" by (simp only: if_False)
    then have "q * (2 * h) - m = - r" using m by (simp add: algebra_simps)
    moreover from False have "r \<le> h" by auto
    ultimately show ?thesis using r by linarith
  qed
  then have "2 ^ 53 * \<bar>q * 2 ^ s - m\<bar> \<le> 2 ^ 53 * h" unfolding v by simp
  also have "\<dots> = 2 ^ t * 2 ^ 52" unfolding hh by simp
  finally show ?thesis using big by linarith
qed

lemma mul07_threshold:
  assumes "0 \<le> n" "n < 2 ^ 49" "mul07 n = Inr thr"
  shows "(7 * n < 10 * i \<longrightarrow> thr < i * 2 ^ 53) \<and> (thr < i * 2 ^ 53 \<longrightarrow> 7 * n \<le> 10 * i)"
proof (cases "n = 0")
  case True
  with assms show ?thesis by (auto simp: mul07_def mul07_nonneg_def)
next
  case False
  with assms have pos: "0 < n" by simp
  have "n < 2 ^ 53" using assms(2) by simp
  have "2 ^ nat (bitlen n - 1) \<le> n" using bitlen_bounds[OF pos] by simp
  with \<open>n < 2 ^ 53\<close> have "(2::int) ^ nat (bitlen n - 1) < 2 ^ 53" by linarith
  then have "nat (bitlen n - 1) < 53" by (rule power_less_imp_less_exp[rotated]) simp
  then have "bitlen n \<le> 53" by linarith
  then have fl: "float_of_nonneg n = Inr n" using \<open>n < 2 ^ 53\<close>
    by (simp add: float_of_nonneg_def round53_def)
  obtain q s where r: "round53 (n * 6305039478318694) = (q, s)"
    by (cases "round53 (n * 6305039478318694)")
  have thr: "thr = q * 2 ^ s"
    using assms(1,3) False fl r by (simp add: mul07_def mul07_nonneg_def)
  from pos have "0 < n * 6305039478318694" by simp
  from round53_err[OF this r]
  have e: "2 ^ 53 * \<bar>thr - n * 6305039478318694\<bar> \<le> n * 6305039478318694"
    by (simp add: thr)
  have "2 ^ 53 * (thr - n * 6305039478318694) \<le> 2 ^ 53 * \<bar>thr - n * 6305039478318694\<bar>"
    by (rule mult_left_mono) simp_all
  with e have e1: "9007199254740992 * thr \<le> 9007199254740993 * 6305039478318694 * n"
    by simp
  have "2 ^ 53 * (n * 6305039478318694 - thr) \<le> 2 ^ 53 * \<bar>thr - n * 6305039478318694\<bar>"
    by (rule mult_left_mono) simp_all
  with e have e2: "9007199254740991 * 6305039478318694 * n \<le> 9007199254740992 * thr"
    by simp
  have n49: "n < 562949953421312" using assms(2) by simp
  have a: "thr < i * 2 ^ 53" if "7 * n < 10 * i"
  proof -
    from that have "7 * n + 1 \<le> 10 * i" by simp
    then show ?thesis using e1 n49 pos by simp
  qed
  have b: "7 * n \<le> 10 * i" if "thr < i * 2 ^ 53"
  proof -
    from that have "thr + 1 \<le> i * 9007199254740992" by simp
    then show ?thesis using e2 n49 pos by simp
  qed
  from a b show ?thesis by blast
qed

text \<open>
  Claim C4, as amended. A text of length at most \<open>max_chars\<close> is returned unchanged.
  For \<open>0 \<le> max_chars\<close> and a longer text (of a length a Python string can have),
  \<^verbatim>\<open>limit_length\<close> returns a string of length at most \<open>max_chars + 3\<close>: the prefix of
  the text up to and including the rightmost of \<^verbatim>\<open>. ! ?\<close> among the first \<open>max_chars\<close>
  characters when its index is greater than the double \<^verbatim>\<open>max_chars * 0.7\<close>, and the
  first \<open>max_chars\<close> characters followed by \<^verbatim>\<open>...\<close> otherwise. Below \<open>2^49\<close> the
  double decides as the exact 70 percent does whenever the index is strictly past, or
  strictly before, 70 percent of \<open>max_chars\<close>.
\<close>

theorem limit_length_spec:
  "(int (length text) \<le> n \<longrightarrow> limit_length text n = Inr text) \<and>
   (0 \<le> n \<and> n < int (length text) \<and> length text < 2 ^ 63 \<longrightarrow>
      (\<exists>r thr. mul07 n = Inr thr \<and> limit_length text n = Inr r \<and>
         int (length r) \<le> n + 3 \<and>
         (\<forall>i. rightmost_end (take (nat n) text) i \<and> thr < int i * 2 ^ 53
               \<longrightarrow> r = take (Suc i) text) \<and>
         ((\<forall>i. rightmost_end (take (nat n) text) i \<longrightarrow> \<not> thr < int i * 2 ^ 53)
               \<longrightarrow> r = take (nat n) text @ ''...'') \<and>
         (n < 2 ^ 49 \<longrightarrow>
            (\<forall>i. rightmost_end (take (nat n) text) i \<and> 7 * n < 10 * int i
                  \<longrightarrow> r = take (Suc i) text) \<and>
            (\<forall>i. rightmost_end (take (nat n) text) i \<and> 10 * int i < 7 * n
                  \<longrightarrow> r = take (nat n) text @ ''...''))))"
proof (intro conjI impI)
  assume "int (length text) \<le> n"
  then show "limit_length text n = Inr text" by (simp add: limit_length_def)
next
  assume h: "0 \<le> n \<and> n < int (length text) \<and> length text < 2 ^ 63"
  let ?tr = "take (nat n) text"
  let ?L = "last_sentence_end ?tr"
  from h have "int (length text) < int (2 ^ 63)" by (simp only: of_nat_less_iff)
  with h have "n < 2 ^ 63" by simp
  then have "n < 2 ^ 1023" by (rule less_le_trans) simp
  with h mul07_ok[of n] obtain thr where thr: "mul07 n = Inr thr" "0 \<le> thr" by blast
  from h have "nat n < length text" by linarith
  then have len: "length ?tr = nat n" by simp
  have Lb: "- 1 \<le> ?L" "?L < n" using last_sentence_end_bounds[of ?tr] len h by auto
  define r where "r = (if thr < ?L * 2 ^ 53 then take (nat (?L + 1)) text else ?tr @ ''...'')"
  have h1: "0 \<le> n" and h2: "\<not> int (length text) \<le> n" using h by auto
  have tr: "py_slice_to n text = ?tr" using h1 by (simp add: py_slice_to_def)
  have sl: "py_slice_to (?L + 1) text = take (nat (?L + 1)) text"
    using Lb(1) by (simp add: py_slice_to_def)
  have res: "limit_length text n = Inr r"
    unfolding limit_length_def Let_def tr sl r_def using h2 thr(1) by simp
  have "length (take (nat (?L + 1)) text) \<le> nat (?L + 1)" by simp
  then have b1: "int (length (take (nat (?L + 1)) text)) \<le> n + 3" using Lb by linarith
  have b2: "int (length (?tr @ ''...'')) \<le> n + 3" using len h1 by simp
  have bound: "int (length r) \<le> n + 3"
  proof (cases "thr < ?L * 2 ^ 53")
    case True
    then have "r = take (nat (?L + 1)) text" by (simp only: r_def if_True)
    with b1 show ?thesis by (simp only:)
  next
    case False
    then have "r = ?tr @ ''...''" by (simp only: r_def if_False)
    with b2 show ?thesis by (simp only:)
  qed
  have c1: "r = take (Suc i) text" if "rightmost_end ?tr i \<and> thr < int i * 2 ^ 53" for i
  proof -
    from that have e: "?L = int i" by (simp add: rightmost_end_iff)
    have "nat (int i + 1) = Suc i" by simp
    with that show ?thesis unfolding r_def e by simp
  qed
  have c2: "r = ?tr @ ''...''" if a: "\<forall>i. rightmost_end ?tr i \<longrightarrow> \<not> thr < int i * 2 ^ 53"
  proof (cases "thr < ?L * 2 ^ 53")
    case True
    with thr(2) have "0 < ?L * 2 ^ 53" by linarith
    then have "0 \<le> ?L" by (simp add: zero_less_mult_iff)
    then have nn: "int (nat ?L) = ?L" by simp
    then have "rightmost_end ?tr (nat ?L)" by (simp only: rightmost_end_iff)
    with a have "\<not> thr < int (nat ?L) * 2 ^ 53" by blast
    with True nn show ?thesis by simp
  next
    case False
    then show ?thesis by (simp add: r_def)
  qed
  have c3: "r = take (Suc i) text" if "n < 2 ^ 49" "rightmost_end ?tr i \<and> 7 * n < 10 * int i" for i
    using mul07_threshold[OF h1 that(1) thr(1), of "int i"] that(2) c1[of i] by blast
  have c4: "r = ?tr @ ''...''" if "n < 2 ^ 49" "rightmost_end ?tr i \<and> 10 * int i < 7 * n" for i
  proof (rule c2, intro allI impI)
    fix j assume "rightmost_end ?tr j"
    with that(2) have "j = i" by (simp add: rightmost_end_iff)
    moreover have "\<not> thr < int i * 2 ^ 53"
      using mul07_threshold[OF h1 that(1) thr(1), of "int i"] that(2) by linarith
    ultimately show "\<not> thr < int j * 2 ^ 53" by simp
  qed
  from thr(1) res bound c1 c2 c3 c4
  show "\<exists>r thr. mul07 n = Inr thr \<and> limit_length text n = Inr r \<and>
         int (length r) \<le> n + 3 \<and>
         (\<forall>i. rightmost_end ?tr i \<and> thr < int i * 2 ^ 53 \<longrightarrow> r = take (Suc i) text) \<and>
         ((\<forall>i. rightmost_end ?tr i \<longrightarrow> \<not> thr < int i * 2 ^ 53) \<longrightarrow> r = ?tr @ ''...'') \<and>
         (n < 2 ^ 49 \<longrightarrow>
            (\<forall>i. rightmost_end ?tr i \<and> 7 * n < 10 * int i \<longrightarrow> r = take (Suc i) text) \<and>
            (\<forall>i. rightmost_end ?tr i \<and> 10 * int i < 7 * n \<longrightarrow> r = ?tr @ ''...''))"
    by blast
qed

theorem limit_length_spec_witness:
  "0 \<le> (10::int) \<and> 10 < int (length ''Hi there. Yes indeed'') \<and>
   length ''Hi there. Yes indeed'' < 2 ^ 63 \<and>
   rightmost_end (take (nat 10) ''Hi there. Yes indeed'') 8 \<and>
   7 * 10 < 10 * int 8 \<and>
   limit_length ''Hi there. Yes indeed'' 10 = Inr ''Hi there.'' \<and>
   int (length ''abc'') \<le> 10 \<and> limit_length ''abc'' 10 = Inr ''abc'' \<and>
   rightmost_end (take (nat 10) ''Hi. And then more'') 2 \<and> 10 * int 2 < 7 * 10 \<and>
   limit_length ''Hi. And then more'' 10 = Inr ''Hi. And th...''"
proof -
  let ?T = "''Hi there. Yes indeed''"
  let ?S = "''Hi. And then more''"
  have h: "0 \<le> (10::int) \<and> 10 < int (length ?T) \<and> length ?T < 2 ^ 63" by simp
  have "last_sentence_end (take (nat 10) ?T) = 8" by code_simp
  then have re: "rightmost_end (take (nat 10) ?T) 8" by (simp add: rightmost_end_iff)
  from limit_length_spec[of ?T 10] h obtain r where
    r: "limit_length ?T 10 = Inr r"
    and c: "\<forall>i. rightmost_end (take (nat 10) ?T) i \<and> 7 * 10 < 10 * int i \<longrightarrow> r = take (Suc i) ?T"
    by auto
  have ineq: "7 * 10 < 10 * int 8" by simp
  from c re ineq have "r = take (Suc 8) ?T" by blast
  then have "r = ''Hi there.''" by simp
  with r have A: "limit_length ?T 10 = Inr ''Hi there.''" by simp
  have s: "int (length ''abc'') \<le> 10" by simp
  with limit_length_spec[of "''abc''" 10] have B: "limit_length ''abc'' 10 = Inr ''abc''" by blast
  have h': "0 \<le> (10::int) \<and> 10 < int (length ?S) \<and> length ?S < 2 ^ 63" by simp
  have "last_sentence_end (take (nat 10) ?S) = 2" by code_simp
  then have re': "rightmost_end (take (nat 10) ?S) 2" by (simp add: rightmost_end_iff)
  from limit_length_spec[of ?S 10] h' obtain r' where
    r': "limit_length ?S 10 = Inr r'"
    and c': "\<forall>i. rightmost_end (take (nat 10) ?S) i \<and> 10 * int i < 7 * 10 \<longrightarrow>
               r' = take (nat 10) ?S @ ''...''"
    by auto
  have ineq': "10 * int 2 < 7 * 10" by simp
  from c' re' ineq' have "r' = take (nat 10) ?S @ ''...''" by blast
  then have "r' = ''Hi. And th...''" by simp
  with r' have C: "limit_length ?S 10 = Inr ''Hi. And th...''" by simp
  from h re ineq A s B re' ineq' C show ?thesis by blast
qed

theorem limit_length_counterexample:
  "rightmost_end (take 90 (replicate 63 (CHR ''a'') @ ''.'' @ replicate 40 (CHR ''b''))) 63 \<and>
   \<not> 7 * 90 < 10 * (63::int) \<and>
   limit_length (replicate 63 (CHR ''a'') @ ''.'' @ replicate 40 (CHR ''b'')) 90 =
     Inr (replicate 63 (CHR ''a'') @ ''.'') \<and>
   limit_length ''abc'' (- 1) = Inr ''ab...'' \<and>
   \<not> int (length ''ab...'') \<le> - 1 + 3"
proof -
  have "last_sentence_end (take 90 (replicate 63 (CHR ''a'') @ ''.'' @ replicate 40 (CHR ''b''))) = 63"
    by code_simp
  then have "rightmost_end (take 90 (replicate 63 (CHR ''a'') @ ''.'' @ replicate 40 (CHR ''b''))) 63"
    by (simp add: rightmost_end_iff)
  moreover have "limit_length (replicate 63 (CHR ''a'') @ ''.'' @ replicate 40 (CHR ''b'')) 90 =
     Inr (replicate 63 (CHR ''a'') @ ''.'')"
    by code_simp
  moreover have "limit_length ''abc'' (- 1) = Inr ''ab...''"
    by code_simp
  ultimately show ?thesis by simp
qed

subsection \<open>Sentence segmentation\<close>

lemma AZ_not_space: "is_AZ c \<Longrightarrow> \<not> py_isspace c"
  by (auto simp: is_AZ_def py_isspace_def in_range_def)














subsection \<open>Post-processing of a summary\<close>

text \<open>
  Claim C3 at a two-line input: the whitespace of the summary, newlines included, is
  collapsed before the bullet pattern runs, so only a marker at the very start of the
  summary is removed and the marker of the second line stays in the output.
\<close>

theorem postprocess_summary_second_line_marker:
  "postprocess_summary (Some (''- First point here.'' @ [CHR 0x0A] @ ''- Second point here.'')) 5 =
     ''First point here. - Second point here.''"
  by code_simp

subsection \<open>Text normalisation\<close>
























subsection \<open>The scraper\<close>

lemma length_py_slice_to: "0 \<le> k \<Longrightarrow> int (length (py_slice_to k xs)) \<le> k"
  by (simp add: py_slice_to_def)

lemma py_slice_to_Nil: "py_slice_to k [] = []"
  by (simp add: py_slice_to_def)

lemma length_quotes_loop: "quotes_loop url qs = Inr r \<Longrightarrow> length r \<le> length qs"
proof (induction qs arbitrary: r)
  case Nil then show ?case by simp
next
  case (Cons q qs)
  from Cons.prems obtain r' where "quotes_loop url qs = Inr r'" "length r \<le> Suc (length r')"
    by (auto simp: Let_def split: option.splits sum.splits)
  with Cons.IH[of r'] show ?case by simp
qed

lemma length_hacker_news_loop: "length (hacker_news_loop url every rows) \<le> length rows"
  by (induction rows) (auto simp: Let_def split: option.splits)

lemma length_generic_loop: "length (generic_loop url i R cands) = length cands"
  by (induction cands arbitrary: i R) (auto simp: Let_def)

lemma scrape_articles_length:
  assumes "0 \<le> limit"
  shows "int (length (scrape_articles web url limit)) \<le> limit"
proof -
  have q: "int (length r) \<le> limit" if "scrape_quotes_to_scrape web url limit = Inr r" for r
  proof -
    from that obtain soup where
      "quotes_loop url (py_slice_to limit
         (find_all [] (\<lambda>x. is_tag ''div'' x \<and> class_is ''quote'' x) ([], soup))) = Inr r"
      by (auto simp: scrape_quotes_to_scrape_def split: sum.splits)
    from length_quotes_loop[OF this]
    have "int (length r) \<le> int (length (py_slice_to limit
         (find_all [] (\<lambda>x. is_tag ''div'' x \<and> class_is ''quote'' x) ([], soup))))"
      by (simp only: of_nat_le_iff)
    also have "\<dots> \<le> limit" using assms by (rule length_py_slice_to)
    finally show ?thesis .
  qed
  have h: "int (length r) \<le> limit" if "scrape_hacker_news web url limit = Inr r" for r
  proof -
    from that obtain soup where
      "r = hacker_news_loop url (desc [] [] soup) (py_slice_to limit
         (find_all [] (\<lambda>x. is_tag ''tr'' x \<and> class_is ''athing'' x) ([], soup)))"
      by (auto simp: scrape_hacker_news_def split: sum.splits)
    then have "int (length r) \<le> int (length (py_slice_to limit
         (find_all [] (\<lambda>x. is_tag ''tr'' x \<and> class_is ''athing'' x) ([], soup))))"
      using length_hacker_news_loop by (simp only: of_nat_le_iff)
    also have "\<dots> \<le> limit" using assms by (rule length_py_slice_to)
    finally show ?thesis .
  qed
  have g: "int (length (scrape_generic web url limit)) \<le> limit"
    using assms length_py_slice_to[OF assms]
    by (auto simp: scrape_generic_def length_generic_loop split: sum.splits)
  show ?thesis
    using q h g assms by (auto simp: scrape_articles_def split: sum.splits)
qed

lemma potential_articles_empty:
  assumes "\<forall>(q, x) \<in> set (desc [] [] soup).
             \<not> is_tag ''article'' x \<and> \<not> class_has ''post'' x \<and> \<not> class_has ''article'' x"
  shows "potential_articles soup = []"
  using assms by (auto simp: potential_articles_def find_all_def filter_empty_conv)

text \<open>
  Claim C2, as amended. For every URL and every limit that is not negative,
  \<^verbatim>\<open>scrape_articles\<close> returns at most \<open>limit\<close> records. For every limit, when the document
  holds no element the chosen strategy looks for, the strategy returns without an
  exception and \<^verbatim>\<open>scrape_articles\<close> returns the empty list; for the generic strategy
  this is a document with no \<^verbatim>\<open>article\<close> element and no element whose class contains
  \<^verbatim>\<open>post\<close> or \<^verbatim>\<open>article\<close>.
\<close>

theorem scrape_articles_bounded:
  "(0 \<le> limit \<longrightarrow> int (length (scrape_articles web url limit)) \<le> limit) \<and>
   (web url = Inr soup \<and> py_in ''quotes.toscrape.com'' url \<and>
    find_all [] (\<lambda>x. is_tag ''div'' x \<and> class_is ''quote'' x) ([], soup) = [] \<longrightarrow>
      scrape_quotes_to_scrape web url limit = Inr [] \<and> scrape_articles web url limit = []) \<and>
   (web url = Inr soup \<and> \<not> py_in ''quotes.toscrape.com'' url \<and>
    py_in ''news.ycombinator.com'' url \<and>
    find_all [] (\<lambda>x. is_tag ''tr'' x \<and> class_is ''athing'' x) ([], soup) = [] \<longrightarrow>
      scrape_hacker_news web url limit = Inr [] \<and> scrape_articles web url limit = []) \<and>
   (web url = Inr soup \<and> \<not> py_in ''quotes.toscrape.com'' url \<and>
    \<not> py_in ''news.ycombinator.com'' url \<and>
    (\<forall>(q, x) \<in> set (desc [] [] soup).
        \<not> is_tag ''article'' x \<and> \<not> class_has ''post'' x \<and> \<not> class_has ''article'' x) \<longrightarrow>
      scrape_articles web url limit = [])"
proof (intro conjI impI)
  assume "0 \<le> limit"
  then show "int (length (scrape_articles web url limit)) \<le> limit"
    by (rule scrape_articles_length)
next
  assume a: "web url = Inr soup \<and> py_in ''quotes.toscrape.com'' url \<and>
    find_all [] (\<lambda>x. is_tag ''div'' x \<and> class_is ''quote'' x) ([], soup) = []"
  then show q: "scrape_quotes_to_scrape web url limit = Inr []"
    by (simp add: scrape_quotes_to_scrape_def py_slice_to_Nil)
  from a q show "scrape_articles web url limit = []"
    by (simp add: scrape_articles_def)
next
  assume a: "web url = Inr soup \<and> \<not> py_in ''quotes.toscrape.com'' url \<and>
    py_in ''news.ycombinator.com'' url \<and>
    find_all [] (\<lambda>x. is_tag ''tr'' x \<and> class_is ''athing'' x) ([], soup) = []"
  then show h: "scrape_hacker_news web url limit = Inr []"
    by (simp add: scrape_hacker_news_def py_slice_to_Nil)
  from a h show "scrape_articles web url limit = []"
    by (simp add: scrape_articles_def)
next
  assume a: "web url = Inr soup \<and> \<not> py_in ''quotes.toscrape.com'' url \<and>
    \<not> py_in ''news.ycombinator.com'' url \<and>
    (\<forall>(q, x) \<in> set (desc [] [] soup).
        \<not> is_tag ''article'' x \<and> \<not> class_has ''post'' x \<and> \<not> class_has ''article'' x)"
  then have "potential_articles soup = []" by (simp add: potential_articles_empty)
  with a show "scrape_articles web url limit = []"
    by (simp add: scrape_articles_def scrape_generic_def py_slice_to_Nil)
qed

theorem scrape_articles_bounded_witness:
  "0 \<le> (1::int) \<and>
   scrape_articles (\<lambda>u. Inr two_articles_page) ''http://example.com/'' 1 =
     [\<lparr>title = ''First'', author = ''Unknown'', content = ''FirstOne.'',
       source_url = ''http://example.com/''\<rparr>] \<and>
   int (length (scrape_articles (\<lambda>u. Inr two_articles_page) ''http://example.com/'' 1)) \<le> 1 \<and>
   \<not> py_in ''quotes.toscrape.com'' ''http://example.com/'' \<and>
   \<not> py_in ''news.ycombinator.com'' ''http://example.com/'' \<and>
   desc [] [] quotes_page_good \<noteq> [] \<and>
   scrape_articles (\<lambda>u. Inr quotes_page_good) ''http://example.com/'' 1 = [] \<and>
   py_in ''quotes.toscrape.com'' ''http://quotes.toscrape.com/'' \<and>
   scrape_articles (\<lambda>u. Inr two_articles_page) ''http://quotes.toscrape.com/'' 1 = [] \<and>
   py_in ''news.ycombinator.com'' ''https://news.ycombinator.com/'' \<and>
   scrape_articles (\<lambda>u. Inr two_articles_page) ''https://news.ycombinator.com/'' 1 = []"
proof -
  let ?u = "''http://example.com/''"
  let ?q = "''http://quotes.toscrape.com/''"
  let ?h = "''https://news.ycombinator.com/''"
  have e: "scrape_articles (\<lambda>u. Inr two_articles_page) ?u 1 =
     [\<lparr>title = ''First'', author = ''Unknown'', content = ''FirstOne.'', source_url = ?u\<rparr>]"
    by code_simp
  have n1: "\<not> py_in ''quotes.toscrape.com'' ?u" by code_simp
  have n2: "\<not> py_in ''news.ycombinator.com'' ?u" by code_simp
  have d: "desc [] [] quotes_page_good \<noteq> []" by code_simp
  have nm: "\<forall>(q, x) \<in> set (desc [] [] quotes_page_good).
        \<not> is_tag ''article'' x \<and> \<not> class_has ''post'' x \<and> \<not> class_has ''article'' x"
    by code_simp
  have q1: "py_in ''quotes.toscrape.com'' ?q" by code_simp
  have q2: "find_all [] (\<lambda>x. is_tag ''div'' x \<and> class_is ''quote'' x) ([], two_articles_page) = []"
    by code_simp
  have h0: "\<not> py_in ''quotes.toscrape.com'' ?h" by code_simp
  have h1: "py_in ''news.ycombinator.com'' ?h" by code_simp
  have h2: "find_all [] (\<lambda>x. is_tag ''tr'' x \<and> class_is ''athing'' x) ([], two_articles_page) = []"
    by code_simp
  from scrape_articles_bounded[of 1 "\<lambda>u. Inr two_articles_page" ?u]
  have b: "int (length (scrape_articles (\<lambda>u. Inr two_articles_page) ?u 1)) \<le> 1" by simp
  from scrape_articles_bounded[of 1 "\<lambda>u. Inr quotes_page_good" ?u quotes_page_good] n1 n2 nm
  have z: "scrape_articles (\<lambda>u. Inr quotes_page_good) ?u 1 = []" by blast
  from scrape_articles_bounded[of 1 "\<lambda>u. Inr two_articles_page" ?q two_articles_page] q1 q2
  have zq: "scrape_articles (\<lambda>u. Inr two_articles_page) ?q 1 = []" by blast
  from scrape_articles_bounded[of 1 "\<lambda>u. Inr two_articles_page" ?h two_articles_page] h0 h1 h2
  have zh: "scrape_articles (\<lambda>u. Inr two_articles_page) ?h 1 = []" by blast
  from e b n1 n2 d z q1 zq h1 zh show ?thesis by (simp only: simp_thms)
qed

theorem scrape_articles_negative_limit_counterexample:
  "length (scrape_articles (\<lambda>u. Inr two_articles_page) ''http://example.com/'' (- 1)) = 1 \<and>
   \<not> (1::int) \<le> - 1"
proof -
  have "length (scrape_articles (\<lambda>u. Inr two_articles_page) ''http://example.com/'' (- 1)) = 1"
    by code_simp
  then show ?thesis by simp
qed

text \<open>
  Claim C1 at a page with two quote containers. The first has no quote text, so
  \<^verbatim>\<open>find\<close> returns \<^verbatim>\<open>None\<close>, \<^verbatim>\<open>get_text\<close> on it raises and \<^verbatim>\<open>scrape_articles\<close> catches the
  exception and returns no record at all, although the second container is well formed:
  alone on the page it gives its record.
\<close>

theorem scrape_quotes_malformed_item_aborts:
  "scrape_quotes_to_scrape (\<lambda>u. Inr quotes_page) ''http://quotes.toscrape.com/'' 5 =
     Inl AttributeError \<and>
   scrape_articles (\<lambda>u. Inr quotes_page) ''http://quotes.toscrape.com/'' 5 = [] \<and>
   scrape_articles (\<lambda>u. Inr quotes_page_good) ''http://quotes.toscrape.com/'' 5 =
     [\<lparr>title = ''Quote by William Shakespeare'', author = ''William Shakespeare'',
       content = ''To be or not to be.'' @ [CHR 0x0A, CHR 0x0A] @ ''Tags: life'',
       source_url = ''http://quotes.toscrape.com/''\<rparr>]"
  by code_simp





lemma in_find_all: "e \<in> set (find_all R P t) \<longleftrightarrow> e \<in> set (desc R (fst t) (snd t)) \<and> P (snd e)"
  by (auto simp: find_all_def)

lemma count_list_pos: "e \<in> set xs \<Longrightarrow> 1 \<le> count_list xs e"
  by (induction xs) auto

text \<open>
  Claim C10. A \<^verbatim>\<open>div\<close> whose class attribute contains both \<^verbatim>\<open>post\<close> and \<^verbatim>\<open>article\<close> is
  found by the second and by the third search, so it stands at least twice among the
  candidates. On the example page the one container of that kind gives two identical
  records, and with the limit 2 they use up the limit: the other container of the page
  gives a record only when the limit is 3.
\<close>

theorem generic_duplicate_container:
  "(\<forall>soup e. e \<in> set (desc [] [] soup) \<and> is_tag ''div'' (snd e) \<and>
        class_has ''post'' (snd e) \<and> class_has ''article'' (snd e) \<longrightarrow>
      2 \<le> count_list (potential_articles soup) e) \<and>
   desc [] [] blog_page = [([0], post_article_div), ([0, 0], Element ''h2'' None [] [Text ''Release notes'']),
     ([0, 0, 0], Text ''Release notes''), ([0, 1], Text ''Version two is out.''),
     ([1], news_div), ([1, 0], Element ''h2'' None [] [Text ''Other news'']),
     ([1, 0, 0], Text ''Other news''), ([1, 1], Text ''Nothing happened.'')] \<and>
   potential_articles blog_page =
     [([0], post_article_div), ([0], post_article_div), ([1], news_div)] \<and>
   scrape_generic (\<lambda>u. Inr blog_page) ''http://example.com/'' 2 =
     [\<lparr>title = ''Release notes'', author = ''Unknown'',
       content = ''Release notesVersion two is out.'', source_url = ''http://example.com/''\<rparr>,
      \<lparr>title = ''Release notes'', author = ''Unknown'',
       content = ''Release notesVersion two is out.'', source_url = ''http://example.com/''\<rparr>] \<and>
   scrape_generic (\<lambda>u. Inr blog_page) ''http://example.com/'' 3 =
     [\<lparr>title = ''Release notes'', author = ''Unknown'',
       content = ''Release notesVersion two is out.'', source_url = ''http://example.com/''\<rparr>,
      \<lparr>title = ''Release notes'', author = ''Unknown'',
       content = ''Release notesVersion two is out.'', source_url = ''http://example.com/''\<rparr>,
      \<lparr>title = ''Other news'', author = ''Unknown'',
       content = ''Other newsNothing happened.'', source_url = ''http://example.com/''\<rparr>]"
proof -
  have A: "2 \<le> count_list (potential_articles soup) e"
    if "e \<in> set (desc [] [] soup) \<and> is_tag ''div'' (snd e) \<and>
        class_has ''post'' (snd e) \<and> class_has ''article'' (snd e)" for soup e
  proof -
    from that have
      "e \<in> set (find_all [] (\<lambda>x. is_tag ''div'' x \<and> class_has ''post'' x) ([], soup))"
      "e \<in> set (find_all [] (\<lambda>x. is_tag ''div'' x \<and> class_has ''article'' x) ([], soup))"
      by (simp_all add: in_find_all)
    then have
      "1 \<le> count_list (find_all [] (\<lambda>x. is_tag ''div'' x \<and> class_has ''post'' x) ([], soup)) e"
      "1 \<le> count_list (find_all [] (\<lambda>x. is_tag ''div'' x \<and> class_has ''article'' x) ([], soup)) e"
      by (simp_all only: count_list_pos)
    then show ?thesis by (simp add: potential_articles_def)
  qed
  have B: "desc [] [] blog_page = [([0], post_article_div), ([0, 0], Element ''h2'' None [] [Text ''Release notes'']),
     ([0, 0, 0], Text ''Release notes''), ([0, 1], Text ''Version two is out.''),
     ([1], news_div), ([1, 0], Element ''h2'' None [] [Text ''Other news'']),
     ([1, 0, 0], Text ''Other news''), ([1, 1], Text ''Nothing happened.'')]"
    by code_simp
  have C: "potential_articles blog_page =
     [([0], post_article_div), ([0], post_article_div), ([1], news_div)]"
    by code_simp
  have D: "scrape_generic (\<lambda>u. Inr blog_page) ''http://example.com/'' 2 =
     [\<lparr>title = ''Release notes'', author = ''Unknown'',
       content = ''Release notesVersion two is out.'', source_url = ''http://example.com/''\<rparr>,
      \<lparr>title = ''Release notes'', author = ''Unknown'',
       content = ''Release notesVersion two is out.'', source_url = ''http://example.com/''\<rparr>]"
    by code_simp
  have E: "scrape_generic (\<lambda>u. Inr blog_page) ''http://example.com/'' 3 =
     [\<lparr>title = ''Release notes'', author = ''Unknown'',
       content = ''Release notesVersion two is out.'', source_url = ''http://example.com/''\<rparr>,
      \<lparr>title = ''Release notes'', author = ''Unknown'',
       content = ''Release notesVersion two is out.'', source_url = ''http://example.com/''\<rparr>,
      \<lparr>title = ''Other news'', author = ''Unknown'',
       content = ''Other newsNothing happened.'', source_url = ''http://example.com/''\<rparr>]"
    by code_simp
  from A B C D E show ?thesis by blast
qed

theorem generic_duplicate_container_witness:
  "([0], post_article_div) \<in> set (desc [] [] blog_page) \<and>
   is_tag ''div'' post_article_div \<and> class_has ''post'' post_article_div \<and>
   class_has ''article'' post_article_div \<and>
   2 \<le> count_list (potential_articles blog_page) ([0], post_article_div)"
proof -
  have a: "([0], post_article_div) \<in> set (desc [] [] blog_page)" by code_simp
  have b: "is_tag ''div'' post_article_div" "class_has ''post'' post_article_div"
    "class_has ''article'' post_article_div" by code_simp+
  from generic_duplicate_container a b
  have "2 \<le> count_list (potential_articles blog_page) ([0], post_article_div)"
    by (metis snd_conv)
  with a b show ?thesis by simp
qed

subsection \<open>The summarisation gateway\<close>

lemma py_strip_empty_iff: "py_strip t = [] \<longleftrightarrow> (\<forall>c \<in> set t. py_isspace c)"
proof -
  have "py_strip t = [] \<longleftrightarrow> (\<forall>c \<in> set (dropWhile py_isspace t). py_isspace c)"
    by (simp add: py_strip_def py_lstrip_def py_rstrip_def dropWhile_eq_Nil_conv)
  also have "\<dots> \<longleftrightarrow> dropWhile py_isspace t = []"
    by (metis hd_dropWhile hd_in_set empty_iff list.set(1))
  also have "\<dots> \<longleftrightarrow> (\<forall>c \<in> set t. py_isspace c)"
    by (simp add: dropWhile_eq_Nil_conv)
  finally show ?thesis .
qed

text \<open>
  Claim C9. For a body that is \<^verbatim>\<open>None\<close>, empty or made of whitespace only, both
  functions return the sentinel and leave the client and the world as they were: no
  clock reading, no sleep, no call of the service. For any other body the result is a
  string in every case: the trimmed text of the reply, the fixed string for an empty
  response, or the error prefix followed by the message of the exception.
\<close>

theorem summarize_blank_body:
  "((body = None \<or> (\<exists>t. body = Some t \<and> (\<forall>ch \<in> set t. py_isspace ch))) \<longrightarrow>
      summarize_text e body max_sentences cw = (''No content to summarize.'', cw) \<and>
      summarize_article e ttl body auth cw = (''No content to summarize.'', cw)) \<and>
   (body = Some t \<and> \<not> (\<forall>ch \<in> set t. py_isspace ch) \<longrightarrow>
      fst (summarize_text e body max_sentences cw) =
        (case service e (trace (snd (apply_rate_limit e cw))) (text_prompt t max_sentences) of
           Raises msg \<Rightarrow> ''Error generating summary: '' @ msg
         | NoResponse \<Rightarrow> ''Unable to generate summary.''
         | Reply txt \<Rightarrow> if txt = [] then ''Unable to generate summary.'' else py_strip txt) \<and>
      fst (summarize_article e ttl body auth cw) =
        (case service e (trace (snd (apply_rate_limit e cw))) (article_prompt ttl t auth) of
           Raises msg \<Rightarrow> ''Error generating article summary: '' @ msg
         | NoResponse \<Rightarrow> ''Unable to generate article summary.''
         | Reply txt \<Rightarrow> if txt = [] then ''Unable to generate article summary.'' else py_strip txt))"
proof -
  have A: "summarize_text e body max_sentences cw = (''No content to summarize.'', cw) \<and>
      summarize_article e ttl body auth cw = (''No content to summarize.'', cw)"
    if "body = None \<or> (\<exists>t. body = Some t \<and> (\<forall>ch \<in> set t. py_isspace ch))"
    using that
    by (auto simp: summarize_text_def summarize_article_def py_strip_empty_iff)
  have B: "fst (summarize_text e body max_sentences cw) =
        (case service e (trace (snd (apply_rate_limit e cw))) (text_prompt t max_sentences) of
           Raises msg \<Rightarrow> ''Error generating summary: '' @ msg
         | NoResponse \<Rightarrow> ''Unable to generate summary.''
         | Reply txt \<Rightarrow> if txt = [] then ''Unable to generate summary.'' else py_strip txt)"
    if "body = Some t \<and> \<not> (\<forall>ch \<in> set t. py_isspace ch)"
  proof -
    from that have "t \<noteq> []" "py_strip t \<noteq> []" by (auto simp: py_strip_empty_iff)
    with that show ?thesis
      by (simp add: summarize_text_def call_service_def Let_def split: gen_result.splits)
  qed
  have C: "fst (summarize_article e ttl body auth cw) =
        (case service e (trace (snd (apply_rate_limit e cw))) (article_prompt ttl t auth) of
           Raises msg \<Rightarrow> ''Error generating article summary: '' @ msg
         | NoResponse \<Rightarrow> ''Unable to generate article summary.''
         | Reply txt \<Rightarrow> if txt = [] then ''Unable to generate article summary.'' else py_strip txt)"
    if "body = Some t \<and> \<not> (\<forall>ch \<in> set t. py_isspace ch)"
  proof -
    from that have "t \<noteq> []" "py_strip t \<noteq> []" by (auto simp: py_strip_empty_iff)
    with that show ?thesis
      by (simp add: summarize_article_def call_service_def Let_def split: gen_result.splits)
  qed
  from A B C show ?thesis by blast
qed

theorem summarize_blank_body_witness:
  "list_all py_isspace [CHR '' '', CHR 0x0A, CHR 0x09] \<and>
   summarize_text demo_env (Some [CHR '' '', CHR 0x0A, CHR 0x09]) 3 (new_client, new_world) =
     (''No content to summarize.'', new_client, new_world) \<and>
   summarize_article demo_env ''A title'' (Some [CHR '' '', CHR 0x0A, CHR 0x09]) None
       (new_client, new_world) =
     (''No content to summarize.'', new_client, new_world) \<and>
   \<not> py_isspace (CHR ''S'') \<and>
   fst (summarize_text demo_env (Some ''Some text.'') 3 (new_client, new_world)) = ''A summary.''"
proof -
  let ?b = "[CHR '' '', CHR 0x0A, CHR 0x09]"
  have s: "list_all py_isspace ?b" by code_simp
  then have s': "\<forall>ch \<in> set ?b. py_isspace ch" by (simp only: list_all_iff)
  have n: "\<not> py_isspace (CHR ''S'')" by code_simp
  then have n': "\<not> (\<forall>ch \<in> set ''Some text.''. py_isspace ch)" by simp
  have r: "service demo_env (trace (snd (apply_rate_limit demo_env (new_client, new_world))))
             (text_prompt ''Some text.'' 3) = Reply '' A summary. ''"
    by (simp add: demo_env_def)
  have p: "py_strip '' A summary. '' = ''A summary.''" by code_simp
  from summarize_blank_body[where body = "Some ?b" and t = ?b and e = demo_env and max_sentences = 3
      and cw = "(new_client, new_world)" and ttl = "''A title''" and auth = None] s'
  have a: "summarize_text demo_env (Some ?b) 3 (new_client, new_world) =
             (''No content to summarize.'', new_client, new_world) \<and>
           summarize_article demo_env ''A title'' (Some ?b) None (new_client, new_world) =
             (''No content to summarize.'', new_client, new_world)"
    by blast
  from summarize_blank_body[where body = "Some ''Some text.''" and t = "''Some text.''"
      and e = demo_env and max_sentences = 3 and cw = "(new_client, new_world)"
      and ttl = "''A title''" and auth = None] n'
  have "fst (summarize_text demo_env (Some ''Some text.'') 3 (new_client, new_world)) =
        (case service demo_env (trace (snd (apply_rate_limit demo_env (new_client, new_world))))
                (text_prompt ''Some text.'' 3) of
           Raises msg \<Rightarrow> ''Error generating summary: '' @ msg
         | NoResponse \<Rightarrow> ''Unable to generate summary.''
         | Reply txt \<Rightarrow> if txt = [] then ''Unable to generate summary.'' else py_strip txt)"
    by blast
  then have b: "fst (summarize_text demo_env (Some ''Some text.'') 3 (new_client, new_world)) =
      ''A summary.''"
    by (simp only: r gen_result.case p) simp
  from s a n b show ?thesis by blast
qed

text \<open>
  What the rate limiter contributes to the interval between two requests: when the clock
  does not run backwards between the two readings, and advances by at least the time
  slept, the new time of the last request is at least one delay after the previous one.
\<close>

lemma apply_rate_limit_interval:
  assumes "apply_rate_limit e (c, w) = (c', w')"
    and "clock e (reads w) \<le> clock e (Suc (reads w))"
    and "clock e (reads w) - last_request_time c < rate_limit_delay c \<longrightarrow>
         clock e (reads w) + (rate_limit_delay c - (clock e (reads w) - last_request_time c))
           \<le> clock e (Suc (reads w))"
  shows "last_request_time c + rate_limit_delay c \<le> last_request_time c'"
proof -
  from assms(1) have "last_request_time c' = clock e (Suc (reads w))"
    by (auto simp: apply_rate_limit_def Let_def split: if_splits)
  with assms(2,3) show ?thesis by (cases "clock e (reads w) - last_request_time c < rate_limit_delay c") auto
qed

end
